theory Spec2Isabelle
  imports Main "HOL-Library.Multiset" "HOL-Library.Sublist"
begin

section \<open>The scope extension: data model\<close>

text \<open>
  The development embeds \<^verbatim>\<open>src/extensions/scope/scope.extension.ts\<close>, the class
  \<^verbatim>\<open>ScopeExtension\<close>. A JavaScript value that may be \<^verbatim>\<open>undefined\<close> or \<^verbatim>\<open>null\<close> is an
  \<open>option\<close>; an exception is the \<open>Inl\<close> of a sum; every call of a collaborator (the legacy
  scope, its object repository, the isolator, the extension loader) leaves an event in a
  trace, so that what a method reads and in which order is part of its value.
\<close>

subsection \<open>Identifiers\<close>

text \<open>
  Modelled from the spec: the classes \<^verbatim>\<open>BitId\<close> and \<^verbatim>\<open>ComponentID\<close> are imported by the
  source and not part of it. An identifier is a name with an optional scope and an optional
  version, an immutable value compared structurally; a \<^verbatim>\<open>ComponentID\<close> wraps the legacy
  \<^verbatim>\<open>BitId\<close> (\<^verbatim>\<open>id._legacy\<close>), \<^verbatim>\<open>id.scope\<close> reads the legacy scope and \<^verbatim>\<open>changeScope\<close> returns a
  copy with the scope replaced.
\<close>

record BitId =
  scope :: "string option"
  name :: string
  version :: "string option"

datatype ComponentID = ComponentID (legacy: BitId)

definition fromLegacy :: "BitId \<Rightarrow> ComponentID" where
  "fromLegacy b = ComponentID b"

definition id_scope :: "ComponentID \<Rightarrow> string option" where
  "id_scope cid = BitId.scope (legacy cid)"

definition changeScope :: "ComponentID \<Rightarrow> string \<Rightarrow> ComponentID" where
  "changeScope cid newScope = ComponentID ((legacy cid)\<lparr>BitId.scope := Some newScope\<rparr>)"

text \<open>
  JavaScript truthiness of a string that may be missing: \<^verbatim>\<open>undefined\<close>, \<^verbatim>\<open>null\<close> and the
  empty string are falsy.
\<close>

definition truthy :: "string option \<Rightarrow> bool" where
  "truthy s = (case s of None \<Rightarrow> False | Some t \<Rightarrow> t \<noteq> [])"

text \<open>The operator \<^verbatim>\<open>a || b\<close> on such a string with a string default.\<close>

definition or_default :: "string option \<Rightarrow> string \<Rightarrow> string" where
  "or_default s d = (case s of None \<Rightarrow> d | Some t \<Rightarrow> if t = [] then d else t)"

subsection \<open>Persisted records\<close>

text \<open>
  Modelled from the spec: \<^verbatim>\<open>Version\<close>, its log, \<^verbatim>\<open>Ref\<close> and \<^verbatim>\<open>ModelComponent\<close> live in
  \<^verbatim>\<open>scope/models\<close> and \<^verbatim>\<open>scope/objects\<close>, outside the source. A version has a main file, a
  dependency set, a log (author display name, author email, commit message, timestamp as
  an epoch string) and a content hash; every log entry but the date may be missing. A model
  component has an owning scope, a name, a mapping from version string to \<^verbatim>\<open>Ref\<close> and a
  latest pointer.
\<close>

type_synonym Ref = string

record Log =
  username :: "string option"
  email :: "string option"
  message :: "string option"
  date :: string

record Version =
  hash :: Ref
  mainFile :: string
  dependencies :: "string list"
  log :: Log

text \<open>
  A JavaScript object with string keys is an association list; the first binding of a key
  is the property's value, and \<^verbatim>\<open>Object.keys\<close> lists every key once.
\<close>

definition Object_keys :: "(string \<times> 'a) list \<Rightarrow> string list" where
  "Object_keys obj = remdups (map fst obj)"

record ModelComponent =
  scope :: "string option"
  name :: string
  versions :: "(string \<times> Ref) list"
  latest :: string

text \<open>
  Modelled from the spec: \<^verbatim>\<open>ModelComponent.toBitIdWithLatestVersion\<close> is outside the source;
  it is the component's identifier at its latest pointer.
\<close>

definition toBitIdWithLatestVersion :: "ModelComponent \<Rightarrow> BitId" where
  "toBitIdWithLatestVersion mc =
     \<lparr>BitId.scope = ModelComponent.scope mc, name = ModelComponent.name mc,
      version = Some (latest mc)\<rparr>"

text \<open>
  Modelled from the spec: \<^verbatim>\<open>ModelComponent.loadVersion\<close> is outside the source; it loads
  the record named by the \<^verbatim>\<open>Ref\<close> of a version string from the object store, and the store
  answers with the record or with nothing.
\<close>

definition loadVersion :: "ModelComponent \<Rightarrow> string \<Rightarrow> (Ref \<Rightarrow> Version option) \<Rightarrow> Version option" where
  "loadVersion mc versionStr repository =
     (case map_of (versions mc) versionStr of
        None \<Rightarrow> None
      | Some ref \<Rightarrow> repository ref)"

subsection \<open>Derived views\<close>

text \<open>
  \<^verbatim>\<open>new Date(parseInt(s))\<close> is kept symbolic: the instant is a function of the log's date
  string alone, and neither built-in throws.
\<close>

datatype Date = Date_parseInt string

record Author =
  displayName :: string
  email :: string

datatype Snap = Snap (hash: string) (timestamp: Date) (parents: "Snap list") (author: Author)
  (message: "string option")

text \<open>
  The class \<^verbatim>\<open>SemVer\<close> belongs to the semver package. Its constructor is a parameter of the
  model (\<open>newSemVer\<close> below): \<open>None\<close> is the constructor throwing on a string that is not a
  semantic version.
\<close>

record SemVer =
  raw :: string
  major :: nat
  minor :: nat
  patch :: nat
  prerelease :: "string list"

record Tag =
  snap :: Snap
  version :: SemVer

text \<open>
  \<^verbatim>\<open>TagMap\<close> is a JavaScript \<^verbatim>\<open>Map\<close> from \<^verbatim>\<open>SemVer\<close> objects to tags. A \<^verbatim>\<open>Map\<close> compares object
  keys by identity and every \<^verbatim>\<open>new SemVer\<close> is a fresh object, so each \<^verbatim>\<open>set\<close> of
  \<^verbatim>\<open>getTagMap\<close> adds an entry. The entries are inserted as the concurrent loads complete,
  in no fixed order: the map is the multiset of its entries.
\<close>

type_synonym TagMap = "(SemVer \<times> Tag) multiset"

text \<open>
  Modelled from the spec: the consumer component, \<^verbatim>\<open>Config\<close>, \<^verbatim>\<open>ComponentFS\<close>, \<^verbatim>\<open>State\<close> and
  \<^verbatim>\<open>Component\<close> are classes outside the source. A consumer component carries the resolved
  extension data and the files; a state is a config (main file and extension data), a file
  system snapshot, a dependency set and the consumer component; files, extension entries and
  dependencies are named by strings.
\<close>

record ConsumerComponent =
  extensions :: "string list"
  files :: "string list"

record Config =
  main :: string
  extensions :: "string list"

record State =
  config :: Config
  filesystem :: "string list"
  dependencies :: "string list"
  consumerComponent :: ConsumerComponent

text \<open>
  The component returned to callers. Its fifth constructor argument, the host, is always
  the scope extension itself (\<^verbatim>\<open>this\<close>) and is left out.
\<close>

record Component =
  id :: ComponentID
  head :: Snap
  state :: State
  tags :: TagMap

text \<open>
  Modelled from the spec: capsules, requireable components and the extension data list are
  classes outside the source. A capsule is the sandbox of one component, a requireable
  component wraps a capsule, and an extension data list holds the legacy identifiers of the
  configured extensions.
\<close>

datatype Capsule = Capsule (capsuleComponent: Component) (wrkDir: string)

datatype RequireableComponent = RequireableComponent (capsule: Capsule)

definition fromCapsule :: "Capsule \<Rightarrow> RequireableComponent" where
  "fromCapsule c = RequireableComponent c"

record ExtensionDataList =
  extensionsBitIds :: "BitId list"

text \<open>The filter of \<^verbatim>\<open>list\<close>; its numbers are integers.\<close>

record Filter =
  offset :: int
  limit :: int

subsection \<open>Errors, collaborators and traces\<close>

text \<open>
  The exceptions: the \<^verbatim>\<open>TypeError\<close> of a member access on \<^verbatim>\<open>undefined\<close>, the error the
  \<^verbatim>\<open>SemVer\<close> constructor throws on an invalid version, \<^verbatim>\<open>ComponentNotFound\<close> with its
  identifier, and whatever a collaborator raises.
\<close>

datatype error =
    TypeError
  | InvalidVersion
  | ComponentNotFound ComponentID
  | CollaboratorError string

text \<open>
  The collaborators injected into the extension, as the source calls them:
  \<^verbatim>\<open>legacyScope.name\<close>, \<^verbatim>\<open>legacyScope.getModelComponentIfExist\<close>, \<^verbatim>\<open>legacyScope.list\<close>,
  \<^verbatim>\<open>legacyScope.objects\<close>, \<^verbatim>\<open>legacyScope.getConsumerComponent\<close>,
  \<^verbatim>\<open>isolator.isolateComponents\<close>, \<^verbatim>\<open>loadRequireableExtensions\<close> and the \<^verbatim>\<open>SemVer\<close>
  constructor. The core only reads them.
\<close>

record ScopeExtension =
  name :: string
  getModelComponentIfExist :: "BitId \<Rightarrow> ModelComponent option"
  legacyList :: "ModelComponent list"
  objects :: "Ref \<Rightarrow> Version option"
  getConsumerComponent :: "BitId \<Rightarrow> error + ConsumerComponent"
  isolateComponents :: "Component list \<Rightarrow> error + Capsule list"
  loadRequireableExtensions :: "RequireableComponent list \<Rightarrow> error + unit"
  newSemVer :: "string \<Rightarrow> SemVer option"

datatype event =
    GetModelComponentIfExist BitId
  | ListModelComponents
  | LoadVersion string
  | GetConsumerComponent BitId
  | IsolateComponents "Component list"
  | LoadRequireableExtensions "RequireableComponent list"

text \<open>
  An asynchronous computation: its outcome (an exception or a value) and the collaborator
  calls it made, in the order it made them.
\<close>

type_synonym 'a io = "(error + 'a) \<times> event list"

definition result :: "'a io \<Rightarrow> error + 'a" where
  "result m = fst m"

definition trace :: "'a io \<Rightarrow> event list" where
  "trace m = snd m"

definition ret :: "'a \<Rightarrow> 'a io" where
  "ret x = (Inr x, [])"

definition throw :: "error \<Rightarrow> 'a io" where
  "throw e = (Inl e, [])"

definition call :: "event \<Rightarrow> error + 'a \<Rightarrow> 'a io" where
  "call ev r = (r, [ev])"

text \<open>\<^verbatim>\<open>await m\<close> followed by the rest of the method: an exception of \<open>m\<close> ends it.\<close>

definition await :: "'a io \<Rightarrow> ('a \<Rightarrow> 'b io) \<Rightarrow> 'b io" where
  "await m k =
     (case result m of
        Inl e \<Rightarrow> (Inl e, trace m)
      | Inr x \<Rightarrow> (result (k x), trace m @ trace (k x)))"

text \<open>Lodash \<^verbatim>\<open>compact\<close> on an array of objects: the missing entries are removed.\<close>

fun compact :: "'a option list \<Rightarrow> 'a list" where
  "compact [] = []"
| "compact (None # xs) = compact xs"
| "compact (Some x # xs) = x # compact xs"

text \<open>
  Lodash \<^verbatim>\<open>slice(array, start, end)\<close> on integer bounds: a negative bound counts from the
  end of the array, as in \<^verbatim>\<open>baseSlice\<close>.
\<close>

definition slice :: "'a list \<Rightarrow> int \<Rightarrow> int \<Rightarrow> 'a list" where
  "slice array start stop =
     (let len = int (length array);
          start1 = (if start < 0 then (if - start > len then 0 else len + start) else start);
          end1 = (if stop > len then len else stop);
          end2 = (if end1 < 0 then end1 + len else end1)
      in if start1 > end2 then [] else take (nat (end2 - start1)) (drop (nat start1) array))"

text \<open>Bluebird \<^verbatim>\<open>mapSeries\<close>: one call after the other, the first exception ends the series.\<close>

fun mapSeries :: "('a \<Rightarrow> 'b io) \<Rightarrow> 'a list \<Rightarrow> 'b list io" where
  "mapSeries f [] = ret []"
| "mapSeries f (x # xs) = await (f x) (\<lambda>y. await (mapSeries f xs) (\<lambda>ys. ret (y # ys)))"

section \<open>The methods of the scope extension\<close>

definition createSnapFromVersion :: "Version \<Rightarrow> Snap" where
  "createSnapFromVersion v =
     Snap
       (Version.hash v)
       (Date_parseInt (date (log v)))
       []
       \<lparr>displayName = or_default (username (log v)) ''unknown'',
        email = or_default (Log.email (log v)) ''unknown@anywhere''\<rparr>
       (Log.message (log v))"

text \<open>
  A member access on a value that may be \<^verbatim>\<open>undefined\<close> (\<^verbatim>\<open>version.hash()\<close>, \<^verbatim>\<open>version.mainFile\<close>)
  throws a \<^verbatim>\<open>TypeError\<close> when it is.
\<close>

definition member_of :: "'a option \<Rightarrow> 'a io" where
  "member_of v = (case v of None \<Rightarrow> throw TypeError | Some x \<Rightarrow> ret x)"

definition createStateFromVersion :: "ScopeExtension \<Rightarrow> ComponentID \<Rightarrow> Version \<Rightarrow> State io" where
  "createStateFromVersion sc cid v =
     await (call (GetConsumerComponent (legacy cid)) (getConsumerComponent sc (legacy cid)))
       (\<lambda>cc.
          ret \<lparr>config = \<lparr>main = mainFile v,
                         extensions = ConsumerComponent.extensions cc\<rparr>,
               filesystem = files cc,
               dependencies = Version.dependencies v,
               consumerComponent = cc\<rparr>)"

text \<open>
  One callback of \<^verbatim>\<open>getTagMap\<close>: the entry it sets, nothing when the version is not in the
  objects, an exception when the version string is not a semantic version.
\<close>

definition tagEntry :: "ScopeExtension \<Rightarrow> ModelComponent \<Rightarrow> string \<Rightarrow> error + (SemVer \<times> Tag) option" where
  "tagEntry sc modelComponent versionStr =
     (case loadVersion modelComponent versionStr (objects sc) of
        None \<Rightarrow> Inr None
      | Some v \<Rightarrow>
          (let sn = createSnapFromVersion v in
           case newSemVer sc versionStr of
             None \<Rightarrow> Inl InvalidVersion
           | Some semver \<Rightarrow>
               (let tag = \<lparr>snap = sn, version = semver\<rparr> in Inr (Some (Tag.version tag, tag)))))"

text \<open>
  \<^verbatim>\<open>Promise.all\<close> over the callbacks: every load is started, in key order, before any
  completes; one failed callback fails the whole map.
\<close>

definition getTagMap :: "ScopeExtension \<Rightarrow> ModelComponent \<Rightarrow> TagMap io" where
  "getTagMap sc modelComponent =
     (let keys = Object_keys (versions modelComponent);
          entries = map (tagEntry sc modelComponent) keys
      in (if \<exists>e \<in> set entries. isl e then Inl InvalidVersion
          else Inr (mset (compact (map projr entries))),
          map LoadVersion keys))"

text \<open>
  The second half of \<^verbatim>\<open>get\<close>, once a model component is found: the latest version is
  loaded, the snap, the state and the tag map are derived from it, in this order.
\<close>

definition buildComponent :: "ScopeExtension \<Rightarrow> ComponentID \<Rightarrow> ModelComponent \<Rightarrow> Component io" where
  "buildComponent sc cid modelComponent =
     (let latestStr = latest modelComponent in
      await (call (LoadVersion latestStr) (Inr (loadVersion modelComponent latestStr (objects sc))))
        (\<lambda>loaded.
      await (member_of loaded)
        (\<lambda>v.
      let sn = createSnapFromVersion v in
      await (createStateFromVersion sc cid v)
        (\<lambda>st.
      await (getTagMap sc modelComponent)
        (\<lambda>tagMap.
      ret \<lparr>id = cid, head = sn, state = st, tags = tagMap\<rparr>)))))"

definition get :: "ScopeExtension \<Rightarrow> ComponentID \<Rightarrow> Component option io" where
  "get sc cid0 =
     await (call (GetModelComponentIfExist (legacy cid0))
              (Inr (getModelComponentIfExist sc (legacy cid0))))
       (\<lambda>modelComponent0.
     await (if modelComponent0 = None \<and> \<not> truthy (id_scope cid0)
            then (let cid = changeScope cid0 (ScopeExtension.name sc) in
                  await (call (GetModelComponentIfExist (legacy cid))
                           (Inr (getModelComponentIfExist sc (legacy cid))))
                    (\<lambda>modelComponent. ret (cid, modelComponent)))
            else ret (cid0, modelComponent0))
       (\<lambda>(cid, found).
          case found of
            None \<Rightarrow> ret None
          | Some modelComponent \<Rightarrow>
              await (buildComponent sc cid modelComponent) (\<lambda>component. ret (Some component))))"

definition exists :: "ScopeExtension \<Rightarrow> ModelComponent \<Rightarrow> bool" where
  "exists sc modelComponent \<longleftrightarrow> ModelComponent.scope modelComponent = Some (ScopeExtension.name sc)"

definition getMany :: "ScopeExtension \<Rightarrow> ComponentID option list \<Rightarrow> Component list io" where
  "getMany sc ids =
     (let idsWithoutEmpty = compact ids in
      await (mapSeries (get sc) idsWithoutEmpty) (\<lambda>components. ret (compact components)))"

text \<open>The identifiers \<^verbatim>\<open>list\<close> hands to \<^verbatim>\<open>getMany\<close>, from the listed model components.\<close>

definition componentsIds :: "ScopeExtension \<Rightarrow> bool \<Rightarrow> ModelComponent list \<Rightarrow> ComponentID list" where
  "componentsIds sc includeCache listed =
     (let modelComponents = (if \<not> includeCache then filter (exists sc) listed else listed)
      in map (\<lambda>component. fromLegacy (toBitIdWithLatestVersion component)) modelComponents)"

definition list :: "ScopeExtension \<Rightarrow> Filter option \<Rightarrow> bool \<Rightarrow> Component list io" where
  "list sc flt includeCache =
     await (call ListModelComponents (Inr (legacyList sc)))
       (\<lambda>listed.
          let ids = componentsIds sc includeCache listed in
          getMany sc (map Some
            (case flt of
               None \<Rightarrow> ids
             | Some f \<Rightarrow> if limit f \<noteq> 0 then slice ids (offset f) (offset f + limit f) else ids)))"

definition getOrThrow :: "ScopeExtension \<Rightarrow> ComponentID \<Rightarrow> Component io" where
  "getOrThrow sc cid =
     await (get sc cid)
       (\<lambda>component. case component of None \<Rightarrow> throw (ComponentNotFound cid) | Some c \<Rightarrow> ret c)"

definition loadExtensions :: "ScopeExtension \<Rightarrow> ExtensionDataList \<Rightarrow> unit io" where
  "loadExtensions sc exts =
     (let ids = map fromLegacy (extensionsBitIds exts) in
      if ids = [] then ret ()
      else
        await (getMany sc (map Some ids))
          (\<lambda>components.
        await (call (IsolateComponents components) (isolateComponents sc components))
          (\<lambda>capsules.
        let requireableExtensions = map fromCapsule capsules in
        call (LoadRequireableExtensions requireableExtensions)
          (loadRequireableExtensions sc requireableExtensions))))"

section \<open>A small scope\<close>

text \<open>
  The scope \<open>my-scope\<close> of the examples: it owns \<open>util\<close>, whose version 0.9.0 is no longer in
  the objects, and it caches \<open>shared\<close>, owned by the scope \<open>other\<close>.
\<close>

definition util_v1 :: Version where
  "util_v1 =
     \<lparr>Version.hash = ''h-util-1'', mainFile = ''index.ts'', Version.dependencies = [''shared''],
      log = \<lparr>username = Some ''ada'', Log.email = None, Log.message = Some ''first'', date = ''1600000000000''\<rparr>\<rparr>"

definition shared_v2 :: Version where
  "shared_v2 =
     \<lparr>Version.hash = ''h-shared-2'', mainFile = ''main.ts'', Version.dependencies = [],
      log = \<lparr>username = None, Log.email = Some ''bob@other'', Log.message = None, date = ''1600000000001''\<rparr>\<rparr>"

definition mc_util :: ModelComponent where
  "mc_util =
     \<lparr>ModelComponent.scope = Some ''my-scope'', ModelComponent.name = ''util'',
      versions = [(''0.9.0'', ''h-util-0''), (''1.0.0'', ''h-util-1'')], latest = ''1.0.0''\<rparr>"

definition mc_shared :: ModelComponent where
  "mc_shared =
     \<lparr>ModelComponent.scope = Some ''other'', ModelComponent.name = ''shared'',
      versions = [(''2.0.0'', ''h-shared-2'')], latest = ''2.0.0''\<rparr>"

definition demo_semver :: "string \<Rightarrow> SemVer option" where
  "demo_semver s =
     (if s = ''0.9.0'' then Some \<lparr>raw = s, major = 0, minor = 9, patch = 0, prerelease = []\<rparr>
      else if s = ''1.0.0'' then Some \<lparr>raw = s, major = 1, minor = 0, patch = 0, prerelease = []\<rparr>
      else if s = ''2.0.0'' then Some \<lparr>raw = s, major = 2, minor = 0, patch = 0, prerelease = []\<rparr>
      else None)"

definition demo_scope :: ScopeExtension where
  "demo_scope =
     \<lparr>ScopeExtension.name = ''my-scope'',
      getModelComponentIfExist =
        (\<lambda>b. if BitId.name b = ''util'' \<and> BitId.scope b = Some ''my-scope'' then Some mc_util
             else if BitId.name b = ''shared'' \<and> BitId.scope b = Some ''other'' then Some mc_shared
             else None),
      legacyList = [mc_util, mc_shared],
      objects =
        (\<lambda>r. if r = ''h-util-1'' then Some util_v1
             else if r = ''h-shared-2'' then Some shared_v2
             else None),
      getConsumerComponent =
        (\<lambda>b. if BitId.name b = ''util'' then Inr \<lparr>ConsumerComponent.extensions = [], files = [''index.ts'']\<rparr>
             else if BitId.name b = ''shared'' then Inr \<lparr>ConsumerComponent.extensions = [], files = [''main.ts'']\<rparr>
             else Inl (CollaboratorError ''no consumer component'')),
      isolateComponents = (\<lambda>cs. Inr (map (\<lambda>c. Capsule c ''/capsules'') cs)),
      loadRequireableExtensions = (\<lambda>rs. Inr ()),
      newSemVer = demo_semver\<rparr>"

definition util_tag :: "SemVer \<times> Tag" where
  "util_tag =
     (\<lparr>raw = ''1.0.0'', major = 1, minor = 0, patch = 0, prerelease = []\<rparr>,
      \<lparr>snap = createSnapFromVersion util_v1,
       version = \<lparr>raw = ''1.0.0'', major = 1, minor = 0, patch = 0, prerelease = []\<rparr>\<rparr>)"

definition shared_tag :: "SemVer \<times> Tag" where
  "shared_tag =
     (\<lparr>raw = ''2.0.0'', major = 2, minor = 0, patch = 0, prerelease = []\<rparr>,
      \<lparr>snap = createSnapFromVersion shared_v2,
       version = \<lparr>raw = ''2.0.0'', major = 2, minor = 0, patch = 0, prerelease = []\<rparr>\<rparr>)"

definition util_id :: ComponentID where
  "util_id = ComponentID \<lparr>BitId.scope = Some ''my-scope'', BitId.name = ''util'', BitId.version = Some ''1.0.0''\<rparr>"

definition bare_util_id :: ComponentID where
  "bare_util_id = ComponentID \<lparr>BitId.scope = None, BitId.name = ''util'', BitId.version = None\<rparr>"

definition shared_id :: ComponentID where
  "shared_id = ComponentID \<lparr>BitId.scope = Some ''other'', BitId.name = ''shared'', BitId.version = Some ''2.0.0''\<rparr>"

definition missing_id :: ComponentID where
  "missing_id = ComponentID \<lparr>BitId.scope = None, BitId.name = ''ghost'', BitId.version = None\<rparr>"

definition util_component :: "ComponentID \<Rightarrow> Component" where
  "util_component cid =
     \<lparr>id = cid,
      head = createSnapFromVersion util_v1,
      state = \<lparr>config = \<lparr>main = ''index.ts'', extensions = []\<rparr>, filesystem = [''index.ts''],
               dependencies = [''shared''],
               consumerComponent = \<lparr>ConsumerComponent.extensions = [], files = [''index.ts'']\<rparr>\<rparr>,
      tags = {#util_tag#}\<rparr>"

definition shared_component :: Component where
  "shared_component =
     \<lparr>id = shared_id,
      head = createSnapFromVersion shared_v2,
      state = \<lparr>config = \<lparr>main = ''main.ts'', extensions = []\<rparr>, filesystem = [''main.ts''],
               dependencies = [],
               consumerComponent = \<lparr>ConsumerComponent.extensions = [], files = [''main.ts'']\<rparr>\<rparr>,
      tags = {#shared_tag#}\<rparr>"

text \<open>The same scope after its objects are lost: the model components are found, no version loads.\<close>

definition broken_scope :: ScopeExtension where
  "broken_scope = demo_scope\<lparr>objects := (\<lambda>r. None)\<rparr>"

section \<open>Properties\<close>

lemma result_ret [simp]: "result (ret x) = Inr x"
  by (simp add: result_def ret_def)

lemma trace_ret [simp]: "trace (ret x) = []"
  by (simp add: trace_def ret_def)

lemma result_throw [simp]: "result (throw e) = Inl e"
  by (simp add: result_def throw_def)

lemma trace_throw [simp]: "trace (throw e) = []"
  by (simp add: trace_def throw_def)

lemma result_call [simp]: "result (call ev r) = r"
  by (simp add: result_def call_def)

lemma trace_call [simp]: "trace (call ev r) = [ev]"
  by (simp add: trace_def call_def)

lemma result_await:
  "result (await m k) = (case result m of Inl e \<Rightarrow> Inl e | Inr x \<Rightarrow> result (k x))"
  by (simp add: await_def result_def split: sum.splits)

lemma trace_await:
  "trace (await m k) = trace m @ (case result m of Inl e \<Rightarrow> [] | Inr x \<Rightarrow> trace (k x))"
  by (simp add: await_def trace_def split: sum.splits)

subsection \<open>Arrays and series\<close>

lemma compact_map_Some: "compact (map Some xs) = xs"
  by (induction xs) auto

lemma set_compact: "set (compact xs) = {x. Some x \<in> set xs}"
  by (induction xs rule: compact.induct) auto

lemma length_compact: "length (compact xs) \<le> length xs"
  by (induction xs rule: compact.induct) auto

lemma subseq_compact: "subseq (map Some (compact xs)) xs"
  by (induction xs rule: compact.induct) auto

lemma result_mapSeries:
  "list_all2 (\<lambda>x r. result (f x) = Inr r) xs rs \<Longrightarrow> result (mapSeries f xs) = Inr rs"
  by (induction xs rs rule: list_all2_induct) (auto simp: result_await)

lemma trace_mapSeries:
  "list_all2 (\<lambda>x r. result (f x) = Inr r) xs rs \<Longrightarrow>
   trace (mapSeries f xs) = concat (map (\<lambda>x. trace (f x)) xs)"
  by (induction xs rs rule: list_all2_induct) (auto simp: trace_await result_mapSeries)

lemma mapSeries_returns:
  "result (mapSeries f xs) = Inr rs \<Longrightarrow> list_all2 (\<lambda>x r. result (f x) = Inr r) xs rs"
proof (induction xs arbitrary: rs)
  case Nil
  then show ?case by simp
next
  case (Cons x xs)
  then show ?case
    by (auto simp: result_await split: sum.splits)
qed

lemma mapSeries_throws:
  assumes "list_all2 (\<lambda>x r. result (f x) = Inr r) pre rs" and "result (f x) = Inl e"
  shows "result (mapSeries f (pre @ x # post)) = Inl e"
    and "trace (mapSeries f (pre @ x # post)) = concat (map (\<lambda>x. trace (f x)) pre) @ trace (f x)"
  using assms by (induction pre rs rule: list_all2_induct) (auto simp: result_await trace_await)

lemma result_getMany:
  "result (getMany sc ids) =
     (case result (mapSeries (get sc) (compact ids)) of Inl e \<Rightarrow> Inl e | Inr rs \<Rightarrow> Inr (compact rs))"
  by (simp add: getMany_def result_await split: sum.splits)

lemma trace_getMany: "trace (getMany sc ids) = trace (mapSeries (get sc) (compact ids))"
  by (simp add: getMany_def trace_await split: sum.splits)

lemma list_all2_rightE:
  "list_all2 P xs ys \<Longrightarrow> y \<in> set ys \<Longrightarrow> \<exists>x \<in> set xs. P x y"
  by (induction xs ys rule: list_all2_induct) auto

lemma set_slice: "set (slice xs a b) \<subseteq> set xs"
proof -
  have "set (take n (drop m xs)) \<subseteq> set xs" for n m
    using set_take_subset [of n "drop m xs"] set_drop_subset [of m xs] by blast
  then show ?thesis
    by (simp add: slice_def Let_def)
qed

lemma slice_page:
  assumes "0 \<le> a" and "0 < n"
  shows "slice xs a (a + n) = take (nat n) (drop (nat a) xs)"
proof (cases "a > int (length xs)")
  case True
  with assms show ?thesis by (simp add: slice_def Let_def)
next
  case False
  with assms have "min (nat (min (a + n) (int (length xs)) - a)) (length xs - nat a) =
      min (nat n) (length xs - nat a)"
    by (auto simp: min_def)
  with False assms show ?thesis
    by (simp add: slice_def Let_def min_def not_less split: if_splits)
qed

subsection \<open>The lookup of get\<close>

lemma get_literal:
  assumes "getModelComponentIfExist sc (legacy cid) = Some mc"
  shows "result (get sc cid) =
           (case result (buildComponent sc cid mc) of Inl e \<Rightarrow> Inl e | Inr c \<Rightarrow> Inr (Some c))"
    and "trace (get sc cid) = GetModelComponentIfExist (legacy cid) # trace (buildComponent sc cid mc)"
  using assms by (simp_all add: get_def result_await trace_await split: sum.splits)

lemma get_scoped_absent:
  assumes "getModelComponentIfExist sc (legacy cid) = None" and "truthy (id_scope cid)"
  shows "get sc cid = (Inr None, [GetModelComponentIfExist (legacy cid)])"
  using assms by (simp add: get_def await_def result_def trace_def call_def ret_def)

lemma get_rebound:
  assumes "getModelComponentIfExist sc (legacy cid) = None" and "\<not> truthy (id_scope cid)"
    and "getModelComponentIfExist sc (legacy (changeScope cid (ScopeExtension.name sc))) = Some mc"
  shows "result (get sc cid) =
           (case result (buildComponent sc (changeScope cid (ScopeExtension.name sc)) mc) of
              Inl e \<Rightarrow> Inl e | Inr c \<Rightarrow> Inr (Some c))"
    and "trace (get sc cid) =
           GetModelComponentIfExist (legacy cid) #
           GetModelComponentIfExist (legacy (changeScope cid (ScopeExtension.name sc))) #
           trace (buildComponent sc (changeScope cid (ScopeExtension.name sc)) mc)"
  using assms by (simp_all add: get_def result_await trace_await Let_def split: sum.splits)

lemma get_rebound_absent:
  assumes "getModelComponentIfExist sc (legacy cid) = None" and "\<not> truthy (id_scope cid)"
    and "getModelComponentIfExist sc (legacy (changeScope cid (ScopeExtension.name sc))) = None"
  shows "get sc cid =
           (Inr None,
            [GetModelComponentIfExist (legacy cid),
             GetModelComponentIfExist (legacy (changeScope cid (ScopeExtension.name sc)))])"
  using assms by (simp add: get_def await_def result_def trace_def call_def ret_def Let_def)

lemma buildComponent_id:
  "result (buildComponent sc cid mc) = Inr c \<Longrightarrow> id c = cid"
  by (auto simp: buildComponent_def result_await Let_def split: sum.splits)

lemma buildComponent_success:
  assumes "loadVersion mc (latest mc) (objects sc) = Some v"
    and "getConsumerComponent sc (legacy cid) = Inr cc"
    and "result (getTagMap sc mc) = Inr tm"
  shows "result (buildComponent sc cid mc) =
           Inr \<lparr>id = cid, head = createSnapFromVersion v,
                state = \<lparr>config = \<lparr>main = mainFile v, extensions = ConsumerComponent.extensions cc\<rparr>,
                         filesystem = files cc, dependencies = Version.dependencies v,
                         consumerComponent = cc\<rparr>,
                tags = tm\<rparr>"
  using assms
  by (simp add: buildComponent_def result_await Let_def member_of_def createStateFromVersion_def)

lemma get_returns_id:
  assumes "result (get sc cid) = Inr (Some c)"
  shows "id c = cid \<and> getModelComponentIfExist sc (legacy cid) \<noteq> None \<or>
         id c = changeScope cid (ScopeExtension.name sc) \<and> \<not> truthy (id_scope cid) \<and>
           getModelComponentIfExist sc (legacy cid) = None"
proof (cases "getModelComponentIfExist sc (legacy cid)")
  case (Some mc)
  with assms have "result (buildComponent sc cid mc) = Inr c"
    by (auto simp: get_literal(1) split: sum.splits)
  then show ?thesis using Some by (simp add: buildComponent_id)
next
  case None
  show ?thesis
  proof (cases "truthy (id_scope cid)")
    case True
    with None assms show ?thesis by (simp add: get_scoped_absent result_def)
  next
    case False
    show ?thesis
    proof (cases "getModelComponentIfExist sc (legacy (changeScope cid (ScopeExtension.name sc)))")
      case None': None
      with None False assms show ?thesis by (simp add: get_rebound_absent result_def)
    next
      case (Some mc)
      with None False assms
      have "result (buildComponent sc (changeScope cid (ScopeExtension.name sc)) mc) = Inr c"
        by (auto simp: get_rebound(1) split: sum.splits)
      then show ?thesis using None False by (simp add: buildComponent_id)
    qed
  qed
qed

subsection \<open>Batches and listings\<close>

lemma getMany_returns:
  assumes "result (getMany sc ids) = Inr cs" and "c \<in> set cs"
  shows "\<exists>cid. Some cid \<in> set ids \<and> result (get sc cid) = Inr (Some c)"
proof -
  from assms(1) obtain rs where rs: "result (mapSeries (get sc) (compact ids)) = Inr rs"
    and cs: "cs = compact rs"
    by (auto simp: result_getMany split: sum.splits)
  from rs have "list_all2 (\<lambda>cid r. result (get sc cid) = Inr r) (compact ids) rs"
    by (rule mapSeries_returns)
  moreover from assms(2) cs have "Some c \<in> set rs"
    by (simp add: set_compact)
  ultimately obtain cid where "cid \<in> set (compact ids)" and "result (get sc cid) = Inr (Some c)"
    by (blast dest: list_all2_rightE)
  then show ?thesis
    by (auto simp: set_compact)
qed

lemma length_getMany:
  assumes "result (getMany sc ids) = Inr cs"
  shows "length cs \<le> length ids"
proof -
  from assms obtain rs where rs: "result (mapSeries (get sc) (compact ids)) = Inr rs"
    and cs: "cs = compact rs"
    by (auto simp: result_getMany split: sum.splits)
  from mapSeries_returns [OF rs] have "length rs = length (compact ids)"
    by (simp add: list_all2_lengthD)
  with cs show ?thesis
    using length_compact [of rs] length_compact [of ids] by simp
qed

lemma result_list:
  "result (list sc flt includeCache) =
     result (getMany sc (map Some
       (case flt of
          None \<Rightarrow> componentsIds sc includeCache (legacyList sc)
        | Some f \<Rightarrow>
            if limit f \<noteq> 0
            then slice (componentsIds sc includeCache (legacyList sc)) (offset f) (offset f + limit f)
            else componentsIds sc includeCache (legacyList sc))))"
  by (simp add: list_def result_await Let_def)

lemma trace_list:
  "trace (list sc flt includeCache) =
     ListModelComponents #
     trace (getMany sc (map Some
       (case flt of
          None \<Rightarrow> componentsIds sc includeCache (legacyList sc)
        | Some f \<Rightarrow>
            if limit f \<noteq> 0
            then slice (componentsIds sc includeCache (legacyList sc)) (offset f) (offset f + limit f)
            else componentsIds sc includeCache (legacyList sc))))"
  by (simp add: list_def trace_await Let_def)

lemma list_hydrates_listed:
  assumes "result (list sc flt includeCache) = Inr cs" and "c \<in> set cs"
  shows "\<exists>cid \<in> set (componentsIds sc includeCache (legacyList sc)). result (get sc cid) = Inr (Some c)"
proof -
  from assms obtain cid where
    "cid \<in> set (case flt of
          None \<Rightarrow> componentsIds sc includeCache (legacyList sc)
        | Some f \<Rightarrow>
            if limit f \<noteq> 0
            then slice (componentsIds sc includeCache (legacyList sc)) (offset f) (offset f + limit f)
            else componentsIds sc includeCache (legacyList sc))"
    and got: "result (get sc cid) = Inr (Some c)"
    unfolding result_list by (auto dest!: getMany_returns)
  then have "cid \<in> set (componentsIds sc includeCache (legacyList sc))"
    using set_slice by (fastforce split: option.splits if_splits)
  with got show ?thesis by blast
qed

lemma result_getMany_resolved:
  "list_all2 (\<lambda>cid r. result (get sc cid) = Inr r) (compact ids) rs \<Longrightarrow>
   result (getMany sc ids) = Inr (compact rs)"
  by (simp add: result_getMany result_mapSeries)

lemma trace_getMany_resolved:
  "list_all2 (\<lambda>cid r. result (get sc cid) = Inr r) (compact ids) rs \<Longrightarrow>
   trace (getMany sc ids) = concat (map (\<lambda>cid. trace (get sc cid)) (compact ids))"
  by (simp add: trace_getMany trace_mapSeries)

lemma componentsIds_owned:
  assumes "cid \<in> set (componentsIds sc False listed)"
  shows "\<exists>mc \<in> set listed. exists sc mc \<and> cid = fromLegacy (toBitIdWithLatestVersion mc) \<and>
           id_scope cid = Some (ScopeExtension.name sc)"
  using assms
  by (auto simp: componentsIds_def exists_def id_scope_def fromLegacy_def toBitIdWithLatestVersion_def)

lemma changeScope_same: "id_scope cid = Some s \<Longrightarrow> changeScope cid s = cid"
  by (cases cid) (simp add: id_scope_def changeScope_def)

lemma fromLegacy_legacy: "fromLegacy (legacy cid) = cid"
  by (simp add: fromLegacy_def)

subsection \<open>The tag map\<close>

lemma tagEntry_loaded:
  assumes "loadVersion mc k (objects sc) = Some v" and "newSemVer sc k = Some sv"
  shows "tagEntry sc mc k = Inr (Some (sv, \<lparr>snap = createSnapFromVersion v, version = sv\<rparr>))"
  using assms by (simp add: tagEntry_def)

lemma tagEntry_gap:
  "loadVersion mc k (objects sc) = None \<Longrightarrow> tagEntry sc mc k = Inr None"
  by (simp add: tagEntry_def)

lemma tagEntry_invalid:
  "loadVersion mc k (objects sc) = Some v \<Longrightarrow> newSemVer sc k = None \<Longrightarrow>
   tagEntry sc mc k = Inl InvalidVersion"
  by (simp add: tagEntry_def)

lemma tagEntries_loaded:
  assumes "\<forall>k \<in> set ks. loadVersion mc k (objects sc) \<noteq> None \<longrightarrow> newSemVer sc k \<noteq> None"
  shows "(\<forall>e \<in> set (map (tagEntry sc mc) ks). \<not> isl e) \<and>
         list_all2
           (\<lambda>k e. \<exists>v sv. loadVersion mc k (objects sc) = Some v \<and> newSemVer sc k = Some sv \<and>
                     e = (sv, \<lparr>snap = createSnapFromVersion v, version = sv\<rparr>))
           [k \<leftarrow> ks. loadVersion mc k (objects sc) \<noteq> None]
           (compact (map projr (map (tagEntry sc mc) ks)))"
  using assms
proof (induction ks)
  case Nil
  then show ?case by simp
next
  case (Cons k ks)
  show ?case
  proof (cases "loadVersion mc k (objects sc)")
    case None
    with Cons show ?thesis by (simp add: tagEntry_gap)
  next
    case (Some v)
    with Cons.prems obtain sv where "newSemVer sc k = Some sv" by auto
    with Some Cons show ?thesis by (simp add: tagEntry_loaded)
  qed
qed

lemma distinct_Object_keys: "distinct (Object_keys obj)"
  by (simp add: Object_keys_def)

lemma tagEntries_keys:
  assumes "list_all2
      (\<lambda>k e. \<exists>v sv. loadVersion mc k (objects sc) = Some v \<and> newSemVer sc k = Some sv \<and>
                e = (sv, \<lparr>snap = createSnapFromVersion v, version = sv\<rparr>)) ks es"
  shows "map (newSemVer sc) ks = map (Some \<circ> fst) es"
  using assms by (induction ks es rule: list_all2_induct) auto

lemma tagEntries_distinct:
  assumes "list_all2
      (\<lambda>k e. \<exists>v sv. loadVersion mc k (objects sc) = Some v \<and> newSemVer sc k = Some sv \<and>
                e = (sv, \<lparr>snap = createSnapFromVersion v, version = sv\<rparr>)) ks es"
    and "distinct ks" and "inj_on (newSemVer sc) (set ks)"
  shows "distinct (map fst es)"
proof -
  from assms(2,3) have "distinct (map (newSemVer sc) ks)"
    by (simp add: distinct_map)
  with tagEntries_keys [OF assms(1)] have "distinct (map (Some \<circ> fst) es)"
    by simp
  then have "distinct (map Some (map fst es))"
    by simp
  then show ?thesis
    by (simp only: distinct_map)
qed

text \<open>A loadable version whose string is no semantic version fails the whole map.\<close>

lemma getTagMap_invalid:
  assumes "k \<in> set (Object_keys (versions mc))"
    and "loadVersion mc k (objects sc) = Some v" and "newSemVer sc k = None"
  shows "result (getTagMap sc mc) = Inl InvalidVersion"
proof -
  from assms(2,3) have "isl (tagEntry sc mc k)"
    by (simp add: tagEntry_invalid)
  with assms(1) have "\<exists>e \<in> set (map (tagEntry sc mc) (Object_keys (versions mc))). isl e"
    by auto
  then show ?thesis
    by (simp add: getTagMap_def Let_def result_def)
qed

subsection \<open>The example scope evaluated\<close>

lemmas demo_defs =
  demo_scope_def util_id_def bare_util_id_def shared_id_def missing_id_def util_component_def
  shared_component_def mc_util_def mc_shared_def util_tag_def shared_tag_def demo_semver_def
  changeScope_def truthy_def id_scope_def

lemma loadVersion_demo_util: "loadVersion mc_util ''1.0.0'' (objects demo_scope) = Some util_v1"
  by (simp add: loadVersion_def mc_util_def demo_scope_def)

lemma loadVersion_demo_util_gap: "loadVersion mc_util ''0.9.0'' (objects demo_scope) = None"
  by (simp add: loadVersion_def mc_util_def demo_scope_def)

lemma loadVersion_demo_shared: "loadVersion mc_shared ''2.0.0'' (objects demo_scope) = Some shared_v2"
  by (simp add: loadVersion_def mc_shared_def demo_scope_def)

lemma getTagMap_demo_util:
  "getTagMap demo_scope mc_util = (Inr {#util_tag#}, [LoadVersion ''0.9.0'', LoadVersion ''1.0.0''])"
  by (simp add: getTagMap_def tagEntry_def Object_keys_def Let_def loadVersion_def demo_defs)

lemma getTagMap_demo_shared:
  "getTagMap demo_scope mc_shared = (Inr {#shared_tag#}, [LoadVersion ''2.0.0''])"
  by (simp add: getTagMap_def tagEntry_def Object_keys_def Let_def loadVersion_def demo_defs)

lemma latest_demo: "latest mc_util = ''1.0.0''" "latest mc_shared = ''2.0.0''"
  by (simp_all add: mc_util_def mc_shared_def)

lemma getConsumerComponent_demo:
  "BitId.name b = ''util'' \<Longrightarrow>
   getConsumerComponent demo_scope b = Inr \<lparr>ConsumerComponent.extensions = [], files = [''index.ts'']\<rparr>"
  "BitId.name b = ''shared'' \<Longrightarrow>
   getConsumerComponent demo_scope b = Inr \<lparr>ConsumerComponent.extensions = [], files = [''main.ts'']\<rparr>"
  by (simp_all add: demo_scope_def)

lemma buildComponent_demo_util:
  "BitId.name (legacy cid) = ''util'' \<Longrightarrow>
   buildComponent demo_scope cid mc_util =
     (Inr (util_component cid),
      [LoadVersion ''1.0.0'', GetConsumerComponent (legacy cid), LoadVersion ''0.9.0'', LoadVersion ''1.0.0''])"
  by (simp add: buildComponent_def Let_def await_def result_def trace_def call_def ret_def
      member_of_def createStateFromVersion_def getTagMap_demo_util util_component_def
      loadVersion_demo_util latest_demo getConsumerComponent_demo util_v1_def)

lemma buildComponent_demo_shared:
  "buildComponent demo_scope shared_id mc_shared =
     (Inr shared_component,
      [LoadVersion ''2.0.0'', GetConsumerComponent (legacy shared_id), LoadVersion ''2.0.0''])"
proof -
  have "BitId.name (legacy shared_id) = ''shared''"
    by (simp add: shared_id_def)
  then show ?thesis
    by (simp add: buildComponent_def Let_def await_def result_def trace_def call_def ret_def
        member_of_def createStateFromVersion_def getTagMap_demo_shared shared_component_def
        loadVersion_demo_shared latest_demo getConsumerComponent_demo shared_v2_def)
qed

lemma get_demo_util:
  "get demo_scope util_id =
     (Inr (Some (util_component util_id)),
      [GetModelComponentIfExist (legacy util_id), LoadVersion ''1.0.0'',
       GetConsumerComponent (legacy util_id), LoadVersion ''0.9.0'', LoadVersion ''1.0.0''])"
proof -
  have "getModelComponentIfExist demo_scope (legacy util_id) = Some mc_util"
    by (simp add: demo_scope_def util_id_def)
  moreover have "BitId.name (legacy util_id) = ''util''"
    by (simp add: util_id_def)
  ultimately show ?thesis
    using get_literal [of demo_scope util_id mc_util] buildComponent_demo_util [of util_id]
    by (simp add: result_def trace_def prod_eq_iff)
qed

lemma get_demo_shared:
  "get demo_scope shared_id =
     (Inr (Some shared_component),
      [GetModelComponentIfExist (legacy shared_id), LoadVersion ''2.0.0'',
       GetConsumerComponent (legacy shared_id), LoadVersion ''2.0.0''])"
proof -
  have "getModelComponentIfExist demo_scope (legacy shared_id) = Some mc_shared"
    by (simp add: demo_scope_def shared_id_def)
  then show ?thesis
    using get_literal [of demo_scope shared_id mc_shared] buildComponent_demo_shared
    by (simp add: result_def trace_def prod_eq_iff)
qed

lemma get_demo_missing:
  "get demo_scope missing_id =
     (Inr None,
      [GetModelComponentIfExist (legacy missing_id),
       GetModelComponentIfExist (legacy (changeScope missing_id ''my-scope''))])"
  using get_rebound_absent [of demo_scope missing_id]
  by (simp add: demo_scope_def missing_id_def id_scope_def truthy_def changeScope_def)

lemma get_demo_bare_util:
  "get demo_scope bare_util_id =
     (Inr (Some (util_component (changeScope bare_util_id ''my-scope''))),
      [GetModelComponentIfExist (legacy bare_util_id),
       GetModelComponentIfExist (legacy (changeScope bare_util_id ''my-scope'')),
       LoadVersion ''1.0.0'',
       GetConsumerComponent (legacy (changeScope bare_util_id ''my-scope'')),
       LoadVersion ''0.9.0'', LoadVersion ''1.0.0''])"
proof -
  have "getModelComponentIfExist demo_scope (legacy bare_util_id) = None"
    and "\<not> truthy (id_scope bare_util_id)"
    and "getModelComponentIfExist demo_scope
           (legacy (changeScope bare_util_id (ScopeExtension.name demo_scope))) = Some mc_util"
    and "ScopeExtension.name demo_scope = ''my-scope''"
    and "BitId.name (legacy (changeScope bare_util_id ''my-scope'')) = ''util''"
    by (simp_all add: demo_scope_def bare_util_id_def id_scope_def truthy_def changeScope_def)
  then show ?thesis
    using get_rebound [of demo_scope bare_util_id mc_util]
      buildComponent_demo_util [of "changeScope bare_util_id ''my-scope''"]
    by (simp add: result_def trace_def prod_eq_iff)
qed

lemma get_broken_util:
  "get broken_scope util_id =
     (Inl TypeError, [GetModelComponentIfExist (legacy util_id), LoadVersion ''1.0.0''])"
proof -
  have found: "getModelComponentIfExist broken_scope (legacy util_id) = Some mc_util"
    by (simp add: broken_scope_def demo_scope_def util_id_def)
  have "buildComponent broken_scope util_id mc_util = (Inl TypeError, [LoadVersion ''1.0.0''])"
    by (simp add: buildComponent_def Let_def await_def result_def trace_def call_def throw_def
        member_of_def loadVersion_def latest_demo broken_scope_def mc_util_def)
  with get_literal [OF found] show ?thesis
    by (simp add: result_def trace_def prod_eq_iff)
qed

lemma get_broken_missing:
  "get broken_scope missing_id =
     (Inr None,
      [GetModelComponentIfExist (legacy missing_id),
       GetModelComponentIfExist (legacy (changeScope missing_id ''my-scope''))])"
  using get_rebound_absent [of broken_scope missing_id]
  by (simp add: broken_scope_def demo_scope_def missing_id_def id_scope_def truthy_def changeScope_def)

lemma componentsIds_demo:
  "componentsIds demo_scope True (legacyList demo_scope) = [util_id, shared_id]"
  "componentsIds demo_scope False (legacyList demo_scope) = [util_id]"
  by (simp_all add: componentsIds_def exists_def demo_scope_def fromLegacy_def
      toBitIdWithLatestVersion_def mc_util_def mc_shared_def util_id_def shared_id_def)

lemma getMany_demo:
  "result (getMany demo_scope [Some util_id, Some shared_id]) =
     Inr [util_component util_id, shared_component]"
  "result (getMany demo_scope [Some util_id]) = Inr [util_component util_id]"
  "result (getMany demo_scope [Some shared_id]) = Inr [shared_component]"
  "result (getMany demo_scope []) = Inr []"
proof -
  have util: "result (get demo_scope util_id) = Inr (Some (util_component util_id))"
    and shared: "result (get demo_scope shared_id) = Inr (Some shared_component)"
    by (simp_all add: get_demo_util get_demo_shared result_def)
  show "result (getMany demo_scope [Some util_id, Some shared_id]) =
      Inr [util_component util_id, shared_component]"
    using result_getMany_resolved
      [of demo_scope "[Some util_id, Some shared_id]" "[Some (util_component util_id), Some shared_component]"]
    by (simp add: util shared)
  show "result (getMany demo_scope [Some util_id]) = Inr [util_component util_id]"
    using result_getMany_resolved [of demo_scope "[Some util_id]" "[Some (util_component util_id)]"]
    by (simp add: util)
  show "result (getMany demo_scope [Some shared_id]) = Inr [shared_component]"
    using result_getMany_resolved [of demo_scope "[Some shared_id]" "[Some shared_component]"]
    by (simp add: shared)
  show "result (getMany demo_scope []) = Inr []"
    using result_getMany_resolved [of demo_scope "[]" "[]"] by simp
qed

lemma list_demo:
  "result (list demo_scope None True) = Inr [util_component util_id, shared_component]"
  "result (list demo_scope None False) = Inr [util_component util_id]"
  by (simp_all add: result_list componentsIds_demo getMany_demo)

section \<open>The claims\<close>

text \<open>
  C1. For an identifier that carries no scope and that the store does not know literally:
  when the store knows the identifier rebound to this scope's name, \<open>get\<close> answers as it
  answers for the rebound identifier, never with the absent sentinel, and with the component
  built from the model component found there (its latest version's snap, its state, its tag
  map) whenever that version loads, the consumer component is available and the tag map
  builds; when the store knows neither, \<open>get\<close> returns the absent sentinel and raises nothing.
\<close>

theorem get_bare_scope_fallback:
  assumes "\<not> truthy (id_scope cid)"
    and "getModelComponentIfExist sc (legacy cid) = None"
  shows
    "(\<forall>mc. getModelComponentIfExist sc (legacy (changeScope cid (ScopeExtension.name sc))) = Some mc \<longrightarrow>
        result (get sc cid) = result (get sc (changeScope cid (ScopeExtension.name sc))) \<and>
        result (get sc cid) \<noteq> Inr None \<and>
        (\<forall>v cc tm.
           loadVersion mc (latest mc) (objects sc) = Some v \<and>
           getConsumerComponent sc (legacy (changeScope cid (ScopeExtension.name sc))) = Inr cc \<and>
           result (getTagMap sc mc) = Inr tm \<longrightarrow>
           result (get sc cid) =
             Inr (Some \<lparr>id = changeScope cid (ScopeExtension.name sc),
                        head = createSnapFromVersion v,
                        state = \<lparr>config = \<lparr>main = mainFile v,
                                            extensions = ConsumerComponent.extensions cc\<rparr>,
                                 filesystem = files cc, dependencies = Version.dependencies v,
                                 consumerComponent = cc\<rparr>,
                        tags = tm\<rparr>))) \<and>
     (getModelComponentIfExist sc (legacy (changeScope cid (ScopeExtension.name sc))) = None \<longrightarrow>
        result (get sc cid) = Inr None)"
proof (intro conjI allI impI)
  fix mc
  assume found: "getModelComponentIfExist sc (legacy (changeScope cid (ScopeExtension.name sc))) = Some mc"
  let ?rebound = "changeScope cid (ScopeExtension.name sc)"
  have fallback: "result (get sc cid) =
      (case result (buildComponent sc ?rebound mc) of Inl e \<Rightarrow> Inl e | Inr c \<Rightarrow> Inr (Some c))"
    using assms found by (simp add: get_rebound(1))
  have "result (get sc ?rebound) =
      (case result (buildComponent sc ?rebound mc) of Inl e \<Rightarrow> Inl e | Inr c \<Rightarrow> Inr (Some c))"
    using found by (rule get_literal(1))
  with fallback show "result (get sc cid) = result (get sc ?rebound)"
    by simp
  from fallback show "result (get sc cid) \<noteq> Inr None"
    by (simp split: sum.splits)
  fix v cc tm
  assume "loadVersion mc (latest mc) (objects sc) = Some v \<and>
          getConsumerComponent sc (legacy ?rebound) = Inr cc \<and> result (getTagMap sc mc) = Inr tm"
  then show "result (get sc cid) =
      Inr (Some \<lparr>id = ?rebound, head = createSnapFromVersion v,
                 state = \<lparr>config = \<lparr>main = mainFile v, extensions = ConsumerComponent.extensions cc\<rparr>,
                          filesystem = files cc, dependencies = Version.dependencies v,
                          consumerComponent = cc\<rparr>,
                 tags = tm\<rparr>)"
    using fallback by (simp add: buildComponent_success)
next
  assume "getModelComponentIfExist sc (legacy (changeScope cid (ScopeExtension.name sc))) = None"
  with assms show "result (get sc cid) = Inr None"
    by (simp add: get_rebound_absent result_def)
qed

theorem get_bare_scope_fallback_witness:
  "\<not> truthy (id_scope bare_util_id) \<and>
   getModelComponentIfExist demo_scope (legacy bare_util_id) = None \<and>
   getModelComponentIfExist demo_scope (legacy (changeScope bare_util_id ''my-scope'')) = Some mc_util \<and>
   result (get demo_scope bare_util_id) = result (get demo_scope (changeScope bare_util_id ''my-scope'')) \<and>
   result (get demo_scope bare_util_id) =
     Inr (Some (util_component (changeScope bare_util_id ''my-scope''))) \<and>
   \<not> truthy (id_scope missing_id) \<and>
   getModelComponentIfExist demo_scope (legacy missing_id) = None \<and>
   getModelComponentIfExist demo_scope (legacy (changeScope missing_id ''my-scope'')) = None \<and>
   result (get demo_scope missing_id) = Inr None"
proof -
  have name: "ScopeExtension.name demo_scope = ''my-scope''"
    by (simp add: demo_scope_def)
  have bare: "\<not> truthy (id_scope bare_util_id)"
    "getModelComponentIfExist demo_scope (legacy bare_util_id) = None"
    "getModelComponentIfExist demo_scope (legacy (changeScope bare_util_id ''my-scope'')) = Some mc_util"
    by (simp_all add: demo_scope_def bare_util_id_def id_scope_def truthy_def changeScope_def)
  have missing: "\<not> truthy (id_scope missing_id)"
    "getModelComponentIfExist demo_scope (legacy missing_id) = None"
    "getModelComponentIfExist demo_scope (legacy (changeScope missing_id ''my-scope'')) = None"
    by (simp_all add: demo_scope_def missing_id_def id_scope_def truthy_def changeScope_def)
  have cc: "getConsumerComponent demo_scope (legacy (changeScope bare_util_id ''my-scope'')) =
      Inr \<lparr>ConsumerComponent.extensions = [], files = [''index.ts'']\<rparr>"
    by (simp add: getConsumerComponent_demo bare_util_id_def changeScope_def)
  have tm: "result (getTagMap demo_scope mc_util) = Inr {#util_tag#}"
    by (simp add: getTagMap_demo_util result_def)
  have util: "util_component (changeScope bare_util_id ''my-scope'') =
      \<lparr>id = changeScope bare_util_id ''my-scope'', head = createSnapFromVersion util_v1,
       state = \<lparr>config = \<lparr>main = mainFile util_v1,
                           extensions = ConsumerComponent.extensions
                             \<lparr>ConsumerComponent.extensions = [], files = [''index.ts'']\<rparr>\<rparr>,
                filesystem = files \<lparr>ConsumerComponent.extensions = [], files = [''index.ts'']\<rparr>,
                dependencies = Version.dependencies util_v1,
                consumerComponent = \<lparr>ConsumerComponent.extensions = [], files = [''index.ts'']\<rparr>\<rparr>,
       tags = {#util_tag#}\<rparr>"
    by (simp add: util_component_def util_v1_def)
  note fallback = get_bare_scope_fallback [OF bare(1) bare(2), unfolded name]
  from fallback bare(3)
  have same: "result (get demo_scope bare_util_id) =
      result (get demo_scope (changeScope bare_util_id ''my-scope''))"
    by blast
  from fallback bare(3) loadVersion_demo_util [folded latest_demo(1)] cc tm
  have built: "result (get demo_scope bare_util_id) =
      Inr (Some (util_component (changeScope bare_util_id ''my-scope'')))"
    unfolding util by blast
  from get_bare_scope_fallback [OF missing(1) missing(2), unfolded name] missing(3)
  have absent: "result (get demo_scope missing_id) = Inr None"
    by blast
  from bare missing same built absent show ?thesis
    by blast
qed

text \<open>
  C2. \<open>getMany\<close> drops the missing entries of its input and resolves the remaining
  identifiers with \<open>get\<close>, one after the other in input order: its trace is the traces of the
  \<open>get\<close> calls in that order. When every \<open>get\<close> returns, with results \<open>rs\<close> in input order,
  \<open>getMany\<close> returns the components of \<open>rs\<close> with the absent results dropped, a subsequence of
  \<open>rs\<close> no longer than the input. When a \<open>get\<close> raises, \<open>getMany\<close> raises the same exception
  and the identifiers after it are never resolved.
\<close>

theorem getMany_in_order:
  "(\<forall>rs. list_all2 (\<lambda>cid r. result (get sc cid) = Inr r) (compact ids) rs \<longrightarrow>
      result (getMany sc ids) = Inr (compact rs) \<and>
      subseq (map Some (compact rs)) rs \<and>
      length (compact rs) \<le> length ids \<and>
      trace (getMany sc ids) = concat (map (\<lambda>cid. trace (get sc cid)) (compact ids))) \<and>
   (\<forall>pre cid post rs e.
      compact ids = pre @ cid # post \<and>
      list_all2 (\<lambda>cid r. result (get sc cid) = Inr r) pre rs \<and>
      result (get sc cid) = Inl e \<longrightarrow>
      result (getMany sc ids) = Inl e \<and>
      trace (getMany sc ids) = concat (map (\<lambda>cid. trace (get sc cid)) pre) @ trace (get sc cid))"
proof (intro conjI allI impI)
  fix rs
  assume resolved: "list_all2 (\<lambda>cid r. result (get sc cid) = Inr r) (compact ids) rs"
  then show "result (getMany sc ids) = Inr (compact rs)"
    by (simp add: result_getMany result_mapSeries)
  show "subseq (map Some (compact rs)) rs"
    by (rule subseq_compact)
  from resolved have "length rs = length (compact ids)"
    by (simp add: list_all2_lengthD)
  then show "length (compact rs) \<le> length ids"
    using length_compact [of rs] length_compact [of ids] by simp
  from resolved show "trace (getMany sc ids) = concat (map (\<lambda>cid. trace (get sc cid)) (compact ids))"
    by (simp add: trace_getMany trace_mapSeries)
next
  fix pre cid post rs e
  assume failing: "compact ids = pre @ cid # post \<and>
      list_all2 (\<lambda>cid r. result (get sc cid) = Inr r) pre rs \<and> result (get sc cid) = Inl e"
  then have stopped: "list_all2 (\<lambda>cid r. result (get sc cid) = Inr r) pre rs"
    "result (get sc cid) = Inl e" and split: "compact ids = pre @ cid # post"
    by simp_all
  from mapSeries_throws(1) [OF stopped, of post] split show "result (getMany sc ids) = Inl e"
    by (simp add: result_getMany)
  from mapSeries_throws(2) [OF stopped, of post] split show "trace (getMany sc ids) =
      concat (map (\<lambda>cid. trace (get sc cid)) pre) @ trace (get sc cid)"
    by (simp add: trace_getMany)
qed

theorem getMany_in_order_witness:
  "result (getMany demo_scope [Some util_id, None, Some missing_id, Some shared_id]) =
     Inr [util_component util_id, shared_component] \<and>
   trace (getMany demo_scope [Some util_id, None, Some missing_id, Some shared_id]) =
     trace (get demo_scope util_id) @ trace (get demo_scope missing_id) @
     trace (get demo_scope shared_id) \<and>
   result (getMany broken_scope [Some missing_id, None, Some util_id, Some shared_id]) =
     Inl TypeError \<and>
   trace (getMany broken_scope [Some missing_id, None, Some util_id, Some shared_id]) =
     trace (get broken_scope missing_id) @ trace (get broken_scope util_id)"
proof -
  let ?ids = "[Some util_id, None, Some missing_id, Some shared_id]"
  have "list_all2 (\<lambda>cid r. result (get demo_scope cid) = Inr r) (compact ?ids)
      [Some (util_component util_id), None, Some shared_component]"
    by (simp add: get_demo_util get_demo_missing get_demo_shared result_def)
  with getMany_in_order [of demo_scope ?ids]
  have "result (getMany demo_scope ?ids) =
        Inr (compact [Some (util_component util_id), None, Some shared_component]) \<and>
      trace (getMany demo_scope ?ids) = concat (map (\<lambda>cid. trace (get demo_scope cid)) (compact ?ids))"
    by blast
  then have resolved: "result (getMany demo_scope ?ids) = Inr [util_component util_id, shared_component]"
    "trace (getMany demo_scope ?ids) =
       trace (get demo_scope util_id) @ trace (get demo_scope missing_id) @
       trace (get demo_scope shared_id)"
    by simp_all
  let ?broken = "[Some missing_id, None, Some util_id, Some shared_id]"
  have "compact ?broken = [missing_id] @ util_id # [shared_id] \<and>
      list_all2 (\<lambda>cid r. result (get broken_scope cid) = Inr r) [missing_id] [None] \<and>
      result (get broken_scope util_id) = Inl TypeError"
    by (simp add: get_broken_missing get_broken_util result_def)
  with getMany_in_order [of broken_scope ?broken]
  have "result (getMany broken_scope ?broken) = Inl TypeError \<and>
      trace (getMany broken_scope ?broken) =
        concat (map (\<lambda>cid. trace (get broken_scope cid)) [missing_id]) @ trace (get broken_scope util_id)"
    by blast
  then have "result (getMany broken_scope ?broken) = Inl TypeError"
    "trace (getMany broken_scope ?broken) =
       trace (get broken_scope missing_id) @ trace (get broken_scope util_id)"
    by simp_all
  with resolved show ?thesis
    by blast
qed

text \<open>
  C3. For a model component whose loadable version strings are semantic versions (the spec's
  invariant of a model component), \<open>getTagMap\<close> does not fail and returns a map whose entries
  correspond one to one to the version keys that load from the objects: each entry is keyed by
  the semantic version of its key and holds the tag of the loaded version's snap. With \<open>N\<close>
  keys of which \<open>M\<close> load, the map has exactly \<open>M\<close> entries, \<open>M \<le> N\<close>, and all \<open>N\<close> loads are
  attempted. Where different version strings give different semantic versions, the keys of
  the entries are different values as well.
\<close>

theorem getTagMap_loadable_versions:
  assumes "\<forall>k \<in> set (Object_keys (versions mc)).
             loadVersion mc k (objects sc) \<noteq> None \<longrightarrow> newSemVer sc k \<noteq> None"
  shows "\<exists>es. result (getTagMap sc mc) = Inr (mset es) \<and>
           list_all2
             (\<lambda>k e. \<exists>v sv. loadVersion mc k (objects sc) = Some v \<and> newSemVer sc k = Some sv \<and>
                       e = (sv, \<lparr>snap = createSnapFromVersion v, version = sv\<rparr>))
             [k \<leftarrow> Object_keys (versions mc). loadVersion mc k (objects sc) \<noteq> None] es \<and>
           size (mset es) = length [k \<leftarrow> Object_keys (versions mc). loadVersion mc k (objects sc) \<noteq> None] \<and>
           size (mset es) \<le> length (Object_keys (versions mc)) \<and>
           (inj_on (newSemVer sc)
              (set [k \<leftarrow> Object_keys (versions mc). loadVersion mc k (objects sc) \<noteq> None]) \<longrightarrow>
            distinct (map fst es)) \<and>
           trace (getTagMap sc mc) = map LoadVersion (Object_keys (versions mc))"
proof -
  let ?keys = "Object_keys (versions mc)"
  let ?es = "compact (map projr (map (tagEntry sc mc) ?keys))"
  note loaded = tagEntries_loaded [OF assms]
  from loaded have "result (getTagMap sc mc) = Inr (mset ?es)"
    by (simp add: getTagMap_def Let_def result_def)
  moreover from loaded
  have "length ?es = length [k \<leftarrow> ?keys. loadVersion mc k (objects sc) \<noteq> None]"
    by (blast dest: list_all2_lengthD [symmetric])
  moreover have "length ?es \<le> length ?keys"
    using length_compact [of "map projr (map (tagEntry sc mc) ?keys)"] by simp
  moreover have "trace (getTagMap sc mc) = map LoadVersion ?keys"
    by (simp add: getTagMap_def Let_def trace_def)
  moreover have "distinct (map fst ?es)"
    if inj: "inj_on (newSemVer sc) (set [k \<leftarrow> ?keys. loadVersion mc k (objects sc) \<noteq> None])"
  proof (rule tagEntries_distinct [OF conjunct2 [OF loaded] _ inj])
    show "distinct [k \<leftarrow> ?keys. loadVersion mc k (objects sc) \<noteq> None]"
      by (simp add: distinct_Object_keys)
  qed
  ultimately show ?thesis
    using loaded by (intro exI [of _ ?es]) simp
qed

theorem getTagMap_loadable_versions_witness:
  "Object_keys (versions mc_util) = [''0.9.0'', ''1.0.0''] \<and>
   loadVersion mc_util ''0.9.0'' (objects demo_scope) = None \<and>
   loadVersion mc_util ''1.0.0'' (objects demo_scope) = Some util_v1 \<and>
   newSemVer demo_scope ''1.0.0'' = Some (fst util_tag) \<and>
   result (getTagMap demo_scope mc_util) = Inr {#util_tag#} \<and>
   size {#util_tag#} = 1"
proof -
  have keys: "Object_keys (versions mc_util) = [''0.9.0'', ''1.0.0'']"
    by (simp add: Object_keys_def mc_util_def)
  have semver: "newSemVer demo_scope ''1.0.0'' = Some (fst util_tag)"
    by (simp add: demo_scope_def demo_semver_def util_tag_def)
  have valid: "\<forall>k \<in> set (Object_keys (versions mc_util)).
      loadVersion mc_util k (objects demo_scope) \<noteq> None \<longrightarrow> newSemVer demo_scope k \<noteq> None"
    by (simp add: keys semver loadVersion_demo_util_gap)
  have loadable: "[k \<leftarrow> Object_keys (versions mc_util).
      loadVersion mc_util k (objects demo_scope) \<noteq> None] = [''1.0.0'']"
    by (simp add: keys loadVersion_demo_util loadVersion_demo_util_gap)
  from getTagMap_loadable_versions [OF valid] obtain es where
    built: "result (getTagMap demo_scope mc_util) = Inr (mset es)" and
    entries: "list_all2
      (\<lambda>k e. \<exists>v sv. loadVersion mc_util k (objects demo_scope) = Some v \<and>
                newSemVer demo_scope k = Some sv \<and>
                e = (sv, \<lparr>snap = createSnapFromVersion v, version = sv\<rparr>))
      [k \<leftarrow> Object_keys (versions mc_util). loadVersion mc_util k (objects demo_scope) \<noteq> None] es"
    by blast
  from entries have "es = [util_tag]"
    unfolding loadable by (auto simp: list_all2_Cons1 loadVersion_demo_util semver util_tag_def)
  with built keys semver loadVersion_demo_util loadVersion_demo_util_gap show ?thesis
    by simp
qed

text \<open>
  C4, as amended. The derived snap's display name is \<open>unknown\<close> when the log's username is
  missing or empty and the username otherwise; its email is \<open>unknown@anywhere\<close> when the log's
  email is missing or empty and the email otherwise; the message is the log's message
  unchanged, missing when the log has none; the parents are empty. The derivation is a total
  function of the version: no missing author entry makes it fail.
\<close>

theorem createSnapFromVersion_defaults:
  "(username (log v) = None \<longrightarrow> displayName (author (createSnapFromVersion v)) = ''unknown'') \<and>
   (Log.email (log v) = None \<longrightarrow>
      Author.email (author (createSnapFromVersion v)) = ''unknown@anywhere'') \<and>
   (\<forall>u. username (log v) = Some u \<longrightarrow>
      displayName (author (createSnapFromVersion v)) = (if u = [] then ''unknown'' else u)) \<and>
   (\<forall>m. Log.email (log v) = Some m \<longrightarrow>
      Author.email (author (createSnapFromVersion v)) = (if m = [] then ''unknown@anywhere'' else m)) \<and>
   Snap.message (createSnapFromVersion v) = Log.message (log v) \<and>
   parents (createSnapFromVersion v) = []"
  by (simp add: createSnapFromVersion_def or_default_def)

theorem createSnapFromVersion_defaults_witness:
  "username (log shared_v2) = None \<and>
   displayName (author (createSnapFromVersion shared_v2)) = ''unknown'' \<and>
   Log.email (log util_v1) = None \<and>
   Author.email (author (createSnapFromVersion util_v1)) = ''unknown@anywhere'' \<and>
   displayName (author (createSnapFromVersion util_v1)) = ''ada'' \<and>
   Author.email (author (createSnapFromVersion shared_v2)) = ''bob@other'' \<and>
   Snap.message (createSnapFromVersion util_v1) = Some ''first'' \<and>
   parents (createSnapFromVersion shared_v2) = []"
  using createSnapFromVersion_defaults [of shared_v2] createSnapFromVersion_defaults [of util_v1]
  by (simp add: shared_v2_def util_v1_def)

text \<open>
  C4 as stated asks for a sentinel in place of a missing message. The version \<open>shared_v2\<close>
  has no message in its log, and neither has its snap.
\<close>

theorem createSnapFromVersion_message_counterexample:
  "Log.message (log shared_v2) = None \<and> Snap.message (createSnapFromVersion shared_v2) = None"
  by (simp add: shared_v2_def createSnapFromVersion_def)

text \<open>
  C5. Every component returned by \<open>list\<close> with \<open>includeCache = false\<close> is the hydration of a
  listed model component that \<open>exists\<close> accepts, so its identifier carries this scope's own
  name as scope. With \<open>includeCache = true\<close> the identifiers of all listed model components are
  hydrated, and a component owned by another scope may be returned: the example scope returns
  \<open>shared\<close>, owned by \<open>other\<close>.
\<close>

theorem list_owned_only:
  "(\<forall>cs c. result (list sc flt False) = Inr cs \<and> c \<in> set cs \<longrightarrow>
      (\<exists>mc \<in> set (legacyList sc). exists sc mc \<and> id c = fromLegacy (toBitIdWithLatestVersion mc)) \<and>
      id_scope (id c) = Some (ScopeExtension.name sc)) \<and>
   componentsIds sc True (legacyList sc) =
     map (\<lambda>mc. fromLegacy (toBitIdWithLatestVersion mc)) (legacyList sc) \<and>
   (\<exists>cs c. result (list demo_scope None True) = Inr cs \<and> c \<in> set cs \<and>
      id_scope (id c) \<noteq> Some (ScopeExtension.name demo_scope))"
proof (intro conjI allI impI)
  fix cs c
  assume "result (list sc flt False) = Inr cs \<and> c \<in> set cs"
  then obtain cid where listed: "cid \<in> set (componentsIds sc False (legacyList sc))"
    and got: "result (get sc cid) = Inr (Some c)"
    by (blast dest: list_hydrates_listed)
  from componentsIds_owned [OF listed] obtain mc where
    mc: "mc \<in> set (legacyList sc)" "exists sc mc" "cid = fromLegacy (toBitIdWithLatestVersion mc)"
    and owned: "id_scope cid = Some (ScopeExtension.name sc)"
    by blast
  from get_returns_id [OF got] changeScope_same [OF owned] have "id c = cid"
    by auto
  with mc owned
  show "\<exists>mc \<in> set (legacyList sc). exists sc mc \<and> id c = fromLegacy (toBitIdWithLatestVersion mc)"
    and "id_scope (id c) = Some (ScopeExtension.name sc)"
    by auto
next
  show "componentsIds sc True (legacyList sc) =
      map (\<lambda>mc. fromLegacy (toBitIdWithLatestVersion mc)) (legacyList sc)"
    by (simp add: componentsIds_def)
next
  have "id_scope (id shared_component) \<noteq> Some (ScopeExtension.name demo_scope)"
    by (simp add: shared_component_def shared_id_def id_scope_def demo_scope_def)
  then show "\<exists>cs c. result (list demo_scope None True) = Inr cs \<and> c \<in> set cs \<and>
      id_scope (id c) \<noteq> Some (ScopeExtension.name demo_scope)"
    using list_demo(1) by (intro exI [of _ "[util_component util_id, shared_component]"]
        exI [of _ shared_component]) simp
qed

theorem list_owned_only_witness:
  "result (list demo_scope None False) = Inr [util_component util_id] \<and>
   util_component util_id \<in> set [util_component util_id] \<and>
   exists demo_scope mc_util \<and>
   id (util_component util_id) = fromLegacy (toBitIdWithLatestVersion mc_util) \<and>
   id_scope (id (util_component util_id)) = Some ''my-scope'' \<and>
   \<not> exists demo_scope mc_shared \<and>
   result (list demo_scope None True) = Inr [util_component util_id, shared_component] \<and>
   id_scope (id shared_component) = Some ''other''"
proof -
  have listed: "result (list demo_scope None False) = Inr [util_component util_id] \<and>
      util_component util_id \<in> set [util_component util_id]"
    by (simp add: list_demo)
  with list_owned_only [of demo_scope None]
  have "id_scope (id (util_component util_id)) = Some (ScopeExtension.name demo_scope)"
    by blast
  then have "id_scope (id (util_component util_id)) = Some ''my-scope''"
    by (simp add: demo_scope_def)
  moreover have "exists demo_scope mc_util" "\<not> exists demo_scope mc_shared"
    "id (util_component util_id) = fromLegacy (toBitIdWithLatestVersion mc_util)"
    "id_scope (id shared_component) = Some ''other''"
    by (simp_all add: exists_def demo_scope_def mc_util_def mc_shared_def util_component_def
        util_id_def fromLegacy_def toBitIdWithLatestVersion_def shared_component_def shared_id_def
        id_scope_def)
  ultimately show ?thesis
    using listed list_demo(1) by blast
qed

text \<open>
  C6, as amended. For a filter with a non-negative offset and a positive limit, \<open>list\<close>
  hydrates exactly the identifiers of the full ordered listing from index \<open>offset\<close> on, at most
  \<open>limit\<close> of them, and so returns at most \<open>limit\<close> components. A filter whose limit is 0 is
  no filter: the full listing is hydrated.
\<close>

theorem list_pagination:
  "(0 \<le> offset f \<and> 0 < limit f \<longrightarrow>
      result (list sc (Some f) includeCache) =
        result (getMany sc (map Some
          (take (nat (limit f)) (drop (nat (offset f))
            (componentsIds sc includeCache (legacyList sc)))))) \<and>
      trace (list sc (Some f) includeCache) =
        ListModelComponents #
        trace (getMany sc (map Some
          (take (nat (limit f)) (drop (nat (offset f))
            (componentsIds sc includeCache (legacyList sc)))))) \<and>
      (\<forall>cs. result (list sc (Some f) includeCache) = Inr cs \<longrightarrow> length cs \<le> nat (limit f))) \<and>
   (limit f = 0 \<longrightarrow> list sc (Some f) includeCache = list sc None includeCache)"
proof (intro conjI allI impI)
  assume limit0: "limit f = 0"
  then show "list sc (Some f) includeCache = list sc None includeCache"
    by (simp add: list_def)
next
  assume paged: "0 \<le> offset f \<and> 0 < limit f"
  let ?ids = "componentsIds sc includeCache (legacyList sc)"
  let ?page = "take (nat (limit f)) (drop (nat (offset f)) ?ids)"
  from paged have page: "slice ?ids (offset f) (offset f + limit f) = ?page"
    by (simp add: slice_page)
  with paged show result: "result (list sc (Some f) includeCache) = result (getMany sc (map Some ?page))"
    by (simp add: result_list)
  from paged page show "trace (list sc (Some f) includeCache) =
      ListModelComponents # trace (getMany sc (map Some ?page))"
    by (simp add: trace_list)
  fix cs
  assume "result (list sc (Some f) includeCache) = Inr cs"
  with result have "result (getMany sc (map Some ?page)) = Inr cs"
    by simp
  then have "length cs \<le> length (map Some ?page)"
    by (rule length_getMany)
  then show "length cs \<le> nat (limit f)"
    by simp
qed

theorem list_pagination_witness:
  "result (list demo_scope (Some \<lparr>offset = 1, limit = 1\<rparr>) True) = Inr [shared_component] \<and>
   take (nat 1) (drop (nat 1) (componentsIds demo_scope True (legacyList demo_scope))) = [shared_id] \<and>
   result (list demo_scope (Some \<lparr>offset = 0, limit = 0\<rparr>) True) =
     result (list demo_scope None True)"
proof -
  have page: "take (nat 1) (drop (nat 1) (componentsIds demo_scope True (legacyList demo_scope))) =
      [shared_id]"
    by (simp add: componentsIds_demo)
  from list_pagination [of "\<lparr>offset = 1, limit = 1\<rparr>" demo_scope True]
  have "result (list demo_scope (Some \<lparr>offset = 1, limit = 1\<rparr>) True) =
      result (getMany demo_scope (map Some
        (take (nat 1) (drop (nat 1) (componentsIds demo_scope True (legacyList demo_scope))))))"
    by simp
  then have "result (list demo_scope (Some \<lparr>offset = 1, limit = 1\<rparr>) True) = Inr [shared_component]"
    by (simp add: componentsIds_demo getMany_demo)
  moreover from list_pagination [of "\<lparr>offset = 0, limit = 0\<rparr>" demo_scope True]
  have "result (list demo_scope (Some \<lparr>offset = 0, limit = 0\<rparr>) True) =
      result (list demo_scope None True)"
    by simp
  ultimately show ?thesis
    using page by blast
qed

text \<open>
  C6 as stated asks for at most \<open>limit\<close> components from every filter. With offset 0 and limit
  0 the example scope returns its two components, where the slice of length 0 is empty.
\<close>

theorem list_limit_zero_counterexample:
  "result (list demo_scope (Some \<lparr>offset = 0, limit = 0\<rparr>) True) =
     Inr [util_component util_id, shared_component] \<and>
   result (getMany demo_scope (map Some
     (take (nat (limit \<lparr>offset = 0, limit = 0\<rparr>)) (drop (nat (offset \<lparr>offset = 0, limit = 0\<rparr>))
       (componentsIds demo_scope True (legacyList demo_scope)))))) = Inr [] \<and>
   \<not> length [util_component util_id, shared_component] \<le> nat (limit \<lparr>offset = 0, limit = 0\<rparr>)"
  by (simp add: result_list componentsIds_demo getMany_demo)

text \<open>
  C7. When \<open>get\<close> returns the absent sentinel, \<open>getOrThrow\<close> fails with \<open>ComponentNotFound\<close>
  carrying the identifier it was called with; when \<open>get\<close> returns a component, \<open>getOrThrow\<close>
  returns that component; an exception of \<open>get\<close> is passed on; and \<open>getOrThrow\<close> reads
  exactly what \<open>get\<close> reads.
\<close>

theorem getOrThrow_get:
  "(result (get sc cid) = Inr None \<longrightarrow> result (getOrThrow sc cid) = Inl (ComponentNotFound cid)) \<and>
   (\<forall>c. result (get sc cid) = Inr (Some c) \<longrightarrow> result (getOrThrow sc cid) = Inr c) \<and>
   (\<forall>e. result (get sc cid) = Inl e \<longrightarrow> result (getOrThrow sc cid) = Inl e) \<and>
   trace (getOrThrow sc cid) = trace (get sc cid)"
  by (auto simp: getOrThrow_def result_await trace_await split: sum.splits option.splits)

theorem getOrThrow_get_witness:
  "result (get demo_scope missing_id) = Inr None \<and>
   result (getOrThrow demo_scope missing_id) = Inl (ComponentNotFound missing_id) \<and>
   result (get demo_scope bare_util_id) =
     Inr (Some (util_component (changeScope bare_util_id ''my-scope''))) \<and>
   result (getOrThrow demo_scope bare_util_id) =
     Inr (util_component (changeScope bare_util_id ''my-scope''))"
  using getOrThrow_get [of demo_scope missing_id] getOrThrow_get [of demo_scope bare_util_id]
  by (simp add: get_demo_missing get_demo_bare_util result_def)

text \<open>
  C8. On an extension list with no identifiers \<open>loadExtensions\<close> returns at once: its trace
  is empty, so it reads nothing from the store, hydrates no component, isolates no capsule and
  never calls the extension loader.
\<close>

theorem loadExtensions_empty:
  "extensionsBitIds exts = [] \<Longrightarrow> loadExtensions sc exts = (Inr (), [])"
  by (simp add: loadExtensions_def ret_def)

theorem loadExtensions_empty_witness:
  "extensionsBitIds \<lparr>extensionsBitIds = []\<rparr> = [] \<and>
   result (loadExtensions demo_scope \<lparr>extensionsBitIds = []\<rparr>) = Inr () \<and>
   trace (loadExtensions demo_scope \<lparr>extensionsBitIds = []\<rparr>) = []"
  using loadExtensions_empty [of "\<lparr>extensionsBitIds = []\<rparr>" demo_scope]
  by (simp add: result_def trace_def)

text \<open>
  C9. When \<open>get\<close> returns a component for an identifier without a scope that the store does
  not know literally, the component's identifier is the identifier rebound to this scope's
  name; it differs from the caller's identifier, unless the caller's scope is the empty string
  and so is this scope's name.
\<close>

theorem get_fallback_id:
  assumes "\<not> truthy (id_scope cid)"
    and "getModelComponentIfExist sc (legacy cid) = None"
    and "result (get sc cid) = Inr (Some c)"
  shows "id c = changeScope cid (ScopeExtension.name sc) \<and>
         id_scope (id c) = Some (ScopeExtension.name sc) \<and>
         (id_scope cid = None \<or> ScopeExtension.name sc \<noteq> [] \<longrightarrow> id c \<noteq> cid)"
proof -
  from get_returns_id [OF assms(3)] assms(2)
  have rebound: "id c = changeScope cid (ScopeExtension.name sc)"
    by simp
  then have scoped: "id_scope (id c) = Some (ScopeExtension.name sc)"
    by (simp add: changeScope_def id_scope_def)
  from assms(1) have "id_scope cid = None \<or> id_scope cid = Some []"
    by (simp add: truthy_def split: option.splits)
  with scoped have "id_scope cid = None \<or> ScopeExtension.name sc \<noteq> [] \<longrightarrow> id c \<noteq> cid"
    by auto
  with rebound scoped show ?thesis
    by simp
qed

theorem get_fallback_id_witness:
  "\<not> truthy (id_scope bare_util_id) \<and>
   getModelComponentIfExist demo_scope (legacy bare_util_id) = None \<and>
   result (get demo_scope bare_util_id) =
     Inr (Some (util_component (changeScope bare_util_id ''my-scope''))) \<and>
   id (util_component (changeScope bare_util_id ''my-scope'')) =
     ComponentID \<lparr>BitId.scope = Some ''my-scope'', BitId.name = ''util'', BitId.version = None\<rparr> \<and>
   id (util_component (changeScope bare_util_id ''my-scope'')) \<noteq> bare_util_id"
proof -
  have bare: "\<not> truthy (id_scope bare_util_id)"
    "getModelComponentIfExist demo_scope (legacy bare_util_id) = None"
    by (simp_all add: demo_scope_def bare_util_id_def id_scope_def truthy_def)
  have returned: "result (get demo_scope bare_util_id) =
      Inr (Some (util_component (changeScope bare_util_id ''my-scope'')))"
    by (simp add: get_demo_bare_util result_def)
  from get_fallback_id [OF bare returned] bare returned show ?thesis
    by (simp add: demo_scope_def changeScope_def bare_util_id_def id_scope_def)
qed

text \<open>
  C10. For a non-empty list of extension identifiers each of which \<open>get\<close> resolves, to a
  component or to the absent sentinel, \<open>loadExtensions\<close> hands the isolator exactly the components
  \<open>get\<close> returned, in order, the absent ones dropped; it hands the loader the capsules the
  isolator returns; and it ends as the isolator and the loader end. An absent extension
  component raises nothing.
\<close>

theorem loadExtensions_isolates_present:
  assumes "extensionsBitIds exts \<noteq> []"
    and "list_all2 (\<lambda>b r. result (get sc (fromLegacy b)) = Inr r) (extensionsBitIds exts) rs"
  shows "result (loadExtensions sc exts) =
           (case isolateComponents sc (compact rs) of
              Inl e \<Rightarrow> Inl e
            | Inr capsules \<Rightarrow> loadRequireableExtensions sc (map fromCapsule capsules)) \<and>
         trace (loadExtensions sc exts) =
           concat (map (\<lambda>b. trace (get sc (fromLegacy b))) (extensionsBitIds exts)) @
           IsolateComponents (compact rs) #
           (case isolateComponents sc (compact rs) of
              Inl e \<Rightarrow> []
            | Inr capsules \<Rightarrow> [LoadRequireableExtensions (map fromCapsule capsules)])"
proof -
  let ?ids = "map fromLegacy (extensionsBitIds exts)"
  from assms(2) have "list_all2 (\<lambda>cid r. result (get sc cid) = Inr r) ?ids rs"
    by (simp add: list_all2_map1)
  then have resolved: "list_all2 (\<lambda>cid r. result (get sc cid) = Inr r) (compact (map Some ?ids)) rs"
    by (simp only: compact_map_Some)
  define hydration where "hydration = getMany sc (map Some ?ids)"
  have hydrated: "result hydration = Inr (compact rs)"
    unfolding hydration_def using resolved by (rule result_getMany_resolved)
  have reads: "trace hydration =
      concat (map (\<lambda>b. trace (get sc (fromLegacy b))) (extensionsBitIds exts))"
    using trace_getMany_resolved [OF resolved] unfolding compact_map_Some hydration_def
    by (simp only: map_map comp_def)
  from assms(1) have "loadExtensions sc exts =
      await hydration
        (\<lambda>components.
      await (call (IsolateComponents components) (isolateComponents sc components))
        (\<lambda>capsules.
      call (LoadRequireableExtensions (map fromCapsule capsules))
        (loadRequireableExtensions sc (map fromCapsule capsules))))"
    unfolding hydration_def by (simp add: loadExtensions_def Let_def)
  then show ?thesis
    by (simp add: result_await trace_await hydrated reads split: sum.splits)
qed

theorem loadExtensions_isolates_present_witness:
  "extensionsBitIds \<lparr>extensionsBitIds = [legacy util_id, legacy missing_id]\<rparr> \<noteq> [] \<and>
   result (get demo_scope util_id) = Inr (Some (util_component util_id)) \<and>
   result (get demo_scope missing_id) = Inr None \<and>
   result (loadExtensions demo_scope \<lparr>extensionsBitIds = [legacy util_id, legacy missing_id]\<rparr>) = Inr () \<and>
   trace (loadExtensions demo_scope \<lparr>extensionsBitIds = [legacy util_id, legacy missing_id]\<rparr>) =
     trace (get demo_scope util_id) @ trace (get demo_scope missing_id) @
     [IsolateComponents [util_component util_id],
      LoadRequireableExtensions [RequireableComponent (Capsule (util_component util_id) ''/capsules'')]]"
proof -
  let ?exts = "\<lparr>extensionsBitIds = [legacy util_id, legacy missing_id]\<rparr>"
  have gets: "result (get demo_scope util_id) = Inr (Some (util_component util_id))"
    "result (get demo_scope missing_id) = Inr None"
    by (simp_all add: get_demo_util get_demo_missing result_def)
  have nonempty: "extensionsBitIds ?exts \<noteq> []"
    by simp
  have resolved: "list_all2 (\<lambda>b r. result (get demo_scope (fromLegacy b)) = Inr r)
      (extensionsBitIds ?exts) [Some (util_component util_id), None]"
    by (simp add: fromLegacy_legacy gets)
  have collaborators:
    "isolateComponents demo_scope [util_component util_id] =
       Inr [Capsule (util_component util_id) ''/capsules'']"
    "loadRequireableExtensions demo_scope
       [RequireableComponent (Capsule (util_component util_id) ''/capsules'')] = Inr ()"
    by (simp_all add: demo_scope_def)
  from loadExtensions_isolates_present [OF nonempty resolved]
  have "result (loadExtensions demo_scope ?exts) = Inr ()"
    and "trace (loadExtensions demo_scope ?exts) =
      trace (get demo_scope util_id) @ trace (get demo_scope missing_id) @
      [IsolateComponents [util_component util_id],
       LoadRequireableExtensions [RequireableComponent (Capsule (util_component util_id) ''/capsules'')]]"
    by (simp_all add: collaborators fromCapsule_def fromLegacy_legacy)
  with gets nonempty show ?thesis
    by blast
qed

end
